theory Spec2Isabelle
  imports Main "HOL-Library.AList" "HOL-Library.Sublist"
begin

section \<open>The debugging harness \<open>scripts/debug-fb-www.js\<close>\<close>

text \<open>
  The script reads an optional list of component names, runs the compiler on one input
  file, writes the generated code and prints an evaluation report. Its module-level
  variables (\<open>errorsCaptured\<close>, \<open>components\<close>, \<open>uniqueEvaluatedComponents\<close>) and the
  console are threaded through the model as one explicit state; an exception or a
  rejected promise is a \<open>Threw\<close> result, and the state reached at the throw is kept,
  since the mutations made before it stay visible to the handlers that run later.
\<close>

subsection \<open>Values\<close>

text \<open>A diagnostic of the compiler: the handler reads \<open>severity\<close> and \<open>message\<close>.\<close>

record diagnostic =
  severity :: string
  message :: string

text \<open>The two answers of the error handler, \<open>"Recover"\<close> and \<open>"Fail"\<close>.\<close>

datatype errorHandlerResult = Recover | Fail

text \<open>
  A value stored in the \<open>components\<close> map: the string set by \<open>readComponentsList\<close>,
  or the array that the renderer puts in its place.
\<close>

datatype tracked = JString string | JArray "string list"

text \<open>
  What \<open>printReactEvaluationGraph\<close> can be handed as \<open>evaluatedRootNode\<close>:
  an array of nodes (\<open>Array.isArray\<close> holds), a node object with its fields
  \<open>name\<close>, \<open>status\<close>, \<open>message\<close> and \<open>children\<close> in this order,
  \<open>undefined\<close> or \<open>null\<close> (\<open>Absent\<close>: a \<open>children\<close> field that is not there),
  or some other value that is neither an array nor a node object, such as a number
  (\<open>Primitive\<close>: its \<open>status\<close> property is \<open>undefined\<close>).
\<close>

datatype node =
    Absent
  | Primitive
  | NodeArray "node list"
  | EvaluatedNode string string string node

text \<open>
  Thrown values. \<open>TypeError\<close> is the engine's error for a property read on
  \<open>undefined\<close>; \<open>ENOENT\<close> and \<open>EISDIR\<close> are the rejections of the file functions;
  \<open>CompilerError\<close> is an error object thrown by the compiler, with its optional
  \<open>natickStack\<close> property and its \<open>stack\<close>.
\<close>

datatype jserror =
    TypeError
  | ENOENT string
  | EISDIR string
  | CompilerError "string option" string

datatype 'a result = Returned 'a | Threw jserror

text \<open>An entry of the file system: a text file with its contents, or a directory.\<close>

datatype fsentry = File string | Directory

text \<open>One call of \<open>console.error\<close>: a captured diagnostic object or a text.\<close>

datatype errline = ErrDiagnostic diagnostic | ErrText string

text \<open>
  The colouring functions of the \<open>chalk\<close> package, a parameter of the model: each maps
  a text to the text wrapped in the terminal's escape codes (or to the text itself when
  colours are off).
\<close>

record chalk =
  gray :: "string \<Rightarrow> string"
  green :: "string \<Rightarrow> string"
  red :: "string \<Rightarrow> string"
  yellow :: "string \<Rightarrow> string"
  bold :: "string \<Rightarrow> string"
  inverse :: "string \<Rightarrow> string"

text \<open>The statistics object and the serialized result returned by the compiler.\<close>

record reactStats =
  evaluatedRootNodes :: node
  componentsEvaluated :: nat
  inlinedComponents :: nat
  optimizedTrees :: nat

record serialized =
  reactStatistics :: reactStats
  code :: string

subsection \<open>The state of the process\<close>

text \<open>
  \<open>components\<close> is a JavaScript \<open>Map\<close>: an association list in insertion order with
  distinct keys. \<open>stdout\<close> and \<open>stderr\<close> hold one entry per \<open>console.log\<close> and
  \<open>console.error\<close> call. \<open>exitCode\<close> is \<open>None\<close> until \<open>process.exit\<close> is called.
\<close>

record state =
  errorsCaptured :: "diagnostic list"
  components :: "(string \<times> tracked) list"
  uniqueEvaluatedComponents :: nat
  startTime :: int
  files :: "string \<rightharpoonup> fsentry"
  stdout :: "string list"
  stderr :: "errline list"
  exitCode :: "nat option"

definition inputPath :: string where
  "inputPath = ''fb-www/input.js''"

definition outputPath :: string where
  "outputPath = ''fb-www/output.js''"

definition componentsListPath :: string where
  "componentsListPath = ''fb-www/components.txt''"

text \<open>The module's initial bindings, for a given clock reading and file system.\<close>

definition initialState :: "int \<Rightarrow> (string \<rightharpoonup> fsentry) \<Rightarrow> state" where
  "initialState t fs =
     \<lparr>errorsCaptured = [], components = [], uniqueEvaluatedComponents = 0,
      startTime = t, files = fs, stdout = [], stderr = [], exitCode = None\<rparr>"

definition console_log :: "string \<Rightarrow> state \<Rightarrow> state" where
  "console_log s st = st\<lparr>stdout := stdout st @ [s]\<rparr>"

definition console_error :: "errline \<Rightarrow> state \<Rightarrow> state" where
  "console_error e st = st\<lparr>stderr := stderr st @ [e]\<rparr>"

subsection \<open>Strings and numbers\<close>

text \<open>
  \<open>String.prototype.toLowerCase\<close> on the ASCII letters; strings are byte lists here,
  and the status names the compiler produces are ASCII.
\<close>

definition lowerChar :: "char \<Rightarrow> char" where
  "lowerChar c =
     (let n = (of_char c :: nat) in if 65 \<le> n \<and> n \<le> 90 then char_of (n + 32) else c)"

definition toLowerCase :: "string \<Rightarrow> string" where
  "toLowerCase s = map lowerChar s"

text \<open>\<open>String.prototype.split\<close> with a one-character separator.\<close>

fun split :: "char \<Rightarrow> string \<Rightarrow> string list" where
  "split sep [] = [[]]"
| "split sep (c # cs) =
     (if c = sep then [] # split sep cs
      else (case split sep cs of [] \<Rightarrow> [[c]] | w # ws \<Rightarrow> (c # w) # ws))"

text \<open>\<open>line.padStart(line.length + depth)\<close>: the pad is \<open>depth\<close> spaces.\<close>

definition padStart :: "string \<Rightarrow> nat \<Rightarrow> string" where
  "padStart s targetLength = replicate (targetLength - length s) CHR '' '' @ s"

text \<open>A number inside a template literal: its decimal digits.\<close>

definition digit :: "nat \<Rightarrow> char" where
  "digit d = char_of (48 + d)"

function natToString :: "nat \<Rightarrow> string" where
  "natToString n = (if n < 10 then [digit n] else natToString (n div 10) @ [digit (n mod 10)])"
  by pat_completeness auto
termination
  by (relation "measure id") auto

declare natToString.simps [simp del]

definition intToString :: "int \<Rightarrow> string" where
  "intToString i = (if i < 0 then CHR ''-'' # natToString (nat (- i)) else natToString (nat i))"

subsection \<open>The error handler\<close>

definition errorHandler :: "diagnostic \<Rightarrow> state \<Rightarrow> errorHandlerResult \<times> state" where
  "errorHandler diag st =
     (let st1 = st\<lparr>errorsCaptured := errorsCaptured st @ [diag]\<rparr> in
      if severity diag = ''Information'' then (Recover, console_log (message diag) st1)
      else if severity diag \<noteq> ''Warning'' then (Fail, st1)
      else (Recover, st1))"

subsection \<open>The compiler\<close>

text \<open>
  Modelled from the spec: the compiler entry point \<open>prepackSources\<close> of
  \<open>lib/prepack-node.js\<close>, which is not among the sources. For one source text it
  calls the error handler synchronously for every diagnostic it produces, in order, and
  in the end returns the serialized result or throws. A behaviour is therefore a finite
  tree: \<open>Reports d r f\<close> passes \<open>d\<close> to the handler and goes on as \<open>r\<close> when the
  answer is \<open>Recover\<close> and as \<open>f\<close> when it is \<open>Fail\<close>. A compiler that never returns is
  outside this model.
\<close>

datatype prepack =
    Returns serialized
  | Throws jserror
  | Reports diagnostic prepack prepack

fun prepackSources :: "prepack \<Rightarrow> state \<Rightarrow> serialized result \<times> state" where
  "prepackSources (Returns s) st = (Returned s, st)"
| "prepackSources (Throws e) st = (Threw e, st)"
| "prepackSources (Reports d onRecover onFail) st =
     (case errorHandler d st of
        (Recover, st') \<Rightarrow> prepackSources onRecover st'
      | (Fail, st') \<Rightarrow> prepackSources onFail st')"

definition compileSource ::
  "(string \<Rightarrow> prepack) \<Rightarrow> string \<Rightarrow> state \<Rightarrow> (reactStats \<times> string) result \<times> state" where
  "compileSource compiler source st =
     (case prepackSources (compiler source) st of
        (Threw e, st') \<Rightarrow> (Threw e, foldl (\<lambda>s error. console_error (ErrDiagnostic error) s) st' (errorsCaptured st'))
      | (Returned s, st') \<Rightarrow> (Returned (reactStatistics s, code s), st'))"

subsection \<open>Files\<close>

definition existsSync :: "string \<Rightarrow> state \<Rightarrow> bool" where
  "existsSync p st = (files st p \<noteq> None)"

definition readFileAsync :: "string \<Rightarrow> state \<Rightarrow> string result" where
  "readFileAsync p st =
     (case files st p of
        None \<Rightarrow> Threw (ENOENT p)
      | Some Directory \<Rightarrow> Threw (EISDIR p)
      | Some (File txt) \<Rightarrow> Returned txt)"

definition writeFileAsync :: "string \<Rightarrow> string \<Rightarrow> state \<Rightarrow> unit result \<times> state" where
  "writeFileAsync p txt st =
     (case files st p of
        Some Directory \<Rightarrow> (Threw (EISDIR p), st)
      | _ \<Rightarrow> (Returned (), st\<lparr>files := (files st)(p \<mapsto> File txt)\<rparr>))"

definition setComponent :: "string \<Rightarrow> tracked \<Rightarrow> state \<Rightarrow> state" where
  "setComponent k v st = st\<lparr>components := AList.update k v (components st)\<rparr>"

definition readComponentsList :: "state \<Rightarrow> unit result \<times> state" where
  "readComponentsList st =
     (if existsSync componentsListPath st then
        (case readFileAsync componentsListPath st of
           Threw e \<Rightarrow> (Threw e, st)
         | Returned componentsList \<Rightarrow>
             (let componentNames = split CHR 0x0A componentsList in
              (Returned (),
               foldl (\<lambda>s componentName. setComponent componentName (JString ''missing'') s)
                 st componentNames)))
      else (Returned (), st))"

definition compileFile :: "(string \<Rightarrow> prepack) \<Rightarrow> state \<Rightarrow> reactStats result \<times> state" where
  "compileFile compiler st =
     (case readFileAsync inputPath st of
        Threw e \<Rightarrow> (Threw e, st)
      | Returned source \<Rightarrow>
          (case compileSource compiler source st of
             (Threw e, st1) \<Rightarrow> (Threw e, st1)
           | (Returned (stats, generated), st1) \<Rightarrow>
               (case writeFileAsync outputPath generated st1 of
                  (Threw e, st2) \<Rightarrow> (Threw e, st2)
                | (Returned _, st2) \<Rightarrow> (Returned stats, st2))))"

subsection \<open>The report renderer\<close>

text \<open>The line of one node, before indentation (the three colour branches).\<close>

definition nodeLine :: "chalk \<Rightarrow> string \<Rightarrow> string \<Rightarrow> string \<Rightarrow> string" where
  "nodeLine ch nm status msg =
     (if status = ''inlined'' then
        gray ch ''-'' @ '' '' @ green ch nm @ '' '' @ gray ch (''('' @ status @ msg @ '')'')
      else if status = ''unsupported_completion'' \<or> status = ''unknown_type'' \<or> status = ''bail-out'' then
        gray ch ''-'' @ '' '' @ red ch nm @ '' '' @ gray ch (''('' @ status @ msg @ '')'')
      else
        gray ch ''-'' @ '' '' @ yellow ch nm @ '' '' @ gray ch (''('' @ status @ msg @ '')''))"

text \<open>
  The tracking update of one node: the \<open>components.has(name)\<close> block. \<open>push\<close> changes
  the array held by the map, which no other key shares.
\<close>

definition trackComponent :: "string \<Rightarrow> string \<Rightarrow> state \<Rightarrow> state" where
  "trackComponent nm status st =
     (case map_of (components st) nm of
        None \<Rightarrow> st
      | Some currentStatus \<Rightarrow>
          (if currentStatus = JString ''missing'' then
             setComponent nm (JArray [''missing''])
               (st\<lparr>uniqueEvaluatedComponents := uniqueEvaluatedComponents st + 1\<rparr>)
           else (case currentStatus of
                   JArray statuses \<Rightarrow> setComponent nm (JArray (statuses @ [status])) st
                 | JString _ \<Rightarrow> st)))"

text \<open>The body of the \<open>else\<close> branch up to the \<open>console.log\<close> call.\<close>

definition visitNode :: "chalk \<Rightarrow> string \<Rightarrow> string \<Rightarrow> string \<Rightarrow> nat \<Rightarrow> state \<Rightarrow> state" where
  "visitNode ch nm nodeStatus nodeMessage depth st =
     (let status = toLowerCase nodeStatus;
          msg = (if nodeMessage \<noteq> [] then '': '' @ nodeMessage else []);
          line = nodeLine ch nm status msg;
          st1 = trackComponent nm status st
      in console_log (padStart line (length line + depth)) st1)"

fun printReactEvaluationGraph :: "chalk \<Rightarrow> node \<Rightarrow> nat \<Rightarrow> state \<Rightarrow> unit result \<times> state"
  and printChildren :: "chalk \<Rightarrow> node list \<Rightarrow> nat \<Rightarrow> state \<Rightarrow> unit result \<times> state" where
  "printReactEvaluationGraph ch (NodeArray cs) depth st = printChildren ch cs depth st"
| "printReactEvaluationGraph ch Absent depth st = (Threw TypeError, st)"
| "printReactEvaluationGraph ch Primitive depth st = (Threw TypeError, st)"
| "printReactEvaluationGraph ch (EvaluatedNode nm s msg cs) depth st =
     printReactEvaluationGraph ch cs (depth + 2) (visitNode ch nm s msg depth st)"
| "printChildren ch [] depth st = (Returned (), st)"
| "printChildren ch (child # rest) depth st =
     (case printReactEvaluationGraph ch child depth st of
        (Threw e, st') \<Rightarrow> (Threw e, st')
      | (Returned _, st') \<Rightarrow> printChildren ch rest depth st')"

subsection \<open>The report and the top-level chain\<close>

definition newline :: char where
  "newline = CHR 0x0A"

text \<open>The check mark (U+2714) and the cross mark (U+2716), as their UTF-8 bytes.\<close>

definition checkMark :: string where
  "checkMark = [CHR 0xE2, CHR 0x9C, CHR 0x94]"

definition crossMark :: string where
  "crossMark = [CHR 0xE2, CHR 0x9C, CHR 0x96]"

text \<open>The two lines printed before the tree.\<close>

definition printHeaders :: "chalk \<Rightarrow> state \<Rightarrow> state" where
  "printHeaders ch st =
     console_log (bold ch ''Evaluated Tree:'')
       (console_log (newline # inverse ch ''=== Compilation Complete ==='' @ [newline]) st)"

text \<open>One pass of the loop over the entries of \<open>components\<close>.\<close>

definition printStatus :: "chalk \<Rightarrow> state \<Rightarrow> string \<times> tracked \<Rightarrow> state" where
  "printStatus ch st entry =
     (case entry of (componentName, status) \<Rightarrow>
        if status = JString ''missing'' then console_log (red ch crossMark @ '' '' @ componentName) st
        else console_log (green ch checkMark @ '' '' @ componentName) st)"

text \<open>
  What the \<open>then\<close> callback does after the tree is printed; \<open>now\<close> is the reading of
  \<open>Date.now()\<close> at the end.
\<close>

definition printSummary :: "chalk \<Rightarrow> int \<Rightarrow> reactStats \<Rightarrow> state \<Rightarrow> state" where
  "printSummary ch now result st =
     (let st1 = (if length (components st) > 0 then
                   foldl (printStatus ch)
                     (console_log (newline # inverse ch ''=== Status ==='' @ [newline]) st)
                     (components st)
                 else st);
          st2 = console_log (newline # inverse ch ''=== Summary ==='' @ [newline]) st1;
          st3 = (if length (components st2) > 0 then
                   console_log (gray ch ''Optimized Components'' @ '': ''
                     @ natToString (uniqueEvaluatedComponents st2) @ ''/''
                     @ natToString (length (components st2))) st2
                 else st2);
          st4 = console_log (gray ch ''Optimized Nodes'' @ '': '' @ natToString (componentsEvaluated result)) st3;
          st5 = console_log (gray ch ''Inlined Nodes'' @ '': '' @ natToString (inlinedComponents result)) st4;
          st6 = console_log (gray ch ''Optimized Trees'' @ '': '' @ natToString (optimizedTrees result)) st5;
          timeTaken = (now - startTime st6) div 1000
      in console_log (gray ch ''Compile time'' @ '': '' @ intToString timeTaken @ ''s'' @ [newline]) st6)"

definition printReport :: "chalk \<Rightarrow> int \<Rightarrow> reactStats \<Rightarrow> state \<Rightarrow> unit result \<times> state" where
  "printReport ch now result st =
     (case printReactEvaluationGraph ch (evaluatedRootNodes result) 0 (printHeaders ch st) of
        (Threw e, st') \<Rightarrow> (Threw e, st')
      | (Returned _, st') \<Rightarrow> (Returned (), printSummary ch now result st'))"

text \<open>
  \<open>e.natickStack || e.stack\<close>. The traces of the engine's own errors are
  abbreviated to the name of the error.
\<close>

fun errorTrace :: "jserror \<Rightarrow> string" where
  "errorTrace (CompilerError (Some natickStack) stack) = (if natickStack \<noteq> [] then natickStack else stack)"
| "errorTrace (CompilerError None stack) = stack"
| "errorTrace TypeError = ''TypeError''"
| "errorTrace (ENOENT p) = ''ENOENT: '' @ p"
| "errorTrace (EISDIR p) = ''EISDIR: '' @ p"

text \<open>The \<open>catch\<close> callback.\<close>

definition onRejected :: "jserror \<Rightarrow> state \<Rightarrow> state" where
  "onRejected e st = (console_error (ErrText (errorTrace e)) st)\<lparr>exitCode := Some 1\<rparr>"

text \<open>
  The promise chain at the end of the script. A final state whose \<open>exitCode\<close> is
  \<open>None\<close> is a process that ends by itself, with status zero.
\<close>

definition script :: "chalk \<Rightarrow> (string \<Rightarrow> prepack) \<Rightarrow> int \<Rightarrow> state \<Rightarrow> state" where
  "script ch compiler now st =
     (case readComponentsList st of
        (Threw e, st1) \<Rightarrow> onRejected e st1
      | (Returned _, st1) \<Rightarrow>
          (case compileFile compiler st1 of
             (Threw e, st2) \<Rightarrow> onRejected e st2
           | (Returned result, st2) \<Rightarrow>
               (case printReport ch now result st2 of
                  (Threw e, st3) \<Rightarrow> onRejected e st3
                | (Returned _, st3) \<Rightarrow> st3)))"

text \<open>Colours switched off: every colouring function returns its argument.\<close>

definition plainChalk :: chalk where
  "plainChalk = \<lparr>gray = (\<lambda>s. s), green = (\<lambda>s. s), red = (\<lambda>s. s), yellow = (\<lambda>s. s),
                  bold = (\<lambda>s. s), inverse = (\<lambda>s. s)\<rparr>"

subsection \<open>Reading the tree and the compiler's behaviour\<close>

text \<open>
  A walk of the tree goes through when no value met on the way is \<open>Absent\<close> or
  \<open>Primitive\<close>.
\<close>

fun completes :: "node \<Rightarrow> bool" where
  "completes Absent = False"
| "completes Primitive = False"
| "completes (NodeArray cs) = list_all completes cs"
| "completes (EvaluatedNode nm s msg cs) = completes cs"

text \<open>
  All node objects of a tree in document order, each with its depth: the number of node
  objects it lies below (arrays do not count). The entries are
  \<open>(depth, name, status, message)\<close>.
\<close>

fun nodesAt :: "node \<Rightarrow> nat \<Rightarrow> (nat \<times> string \<times> string \<times> string) list" where
  "nodesAt Absent k = []"
| "nodesAt Primitive k = []"
| "nodesAt (NodeArray cs) k = concat (map (\<lambda>c. nodesAt c k) cs)"
| "nodesAt (EvaluatedNode nm s msg cs) k = (k, nm, s, msg) # nodesAt cs (Suc k)"

text \<open>
  The node objects reached before the walk ends: all of them when it goes through,
  those up to the first \<open>Absent\<close> or \<open>Primitive\<close> value otherwise.
\<close>

fun visited :: "node \<Rightarrow> nat \<Rightarrow> (nat \<times> string \<times> string \<times> string) list"
  and visitedChildren :: "node list \<Rightarrow> nat \<Rightarrow> (nat \<times> string \<times> string \<times> string) list" where
  "visited Absent k = []"
| "visited Primitive k = []"
| "visited (NodeArray cs) k = visitedChildren cs k"
| "visited (EvaluatedNode nm s msg cs) k = (k, nm, s, msg) # visited cs (Suc k)"
| "visitedChildren [] k = []"
| "visitedChildren (c # cs) k = visited c k @ (if completes c then visitedChildren cs k else [])"

text \<open>The lower-cased status and the message part of a printed line.\<close>

definition messagePart :: "string \<Rightarrow> string" where
  "messagePart m = (if m \<noteq> [] then '': '' @ m else [])"

definition renderedLine :: "chalk \<Rightarrow> nat \<times> string \<times> string \<times> string \<Rightarrow> string" where
  "renderedLine ch r =
     (case r of (k, nm, s, m) \<Rightarrow>
        replicate (2 * k) CHR '' '' @ nodeLine ch nm (toLowerCase s) (messagePart m))"

text \<open>The names and the lower-cased statuses of a list of visited node objects.\<close>

definition namesOf :: "(nat \<times> string \<times> string \<times> string) list \<Rightarrow> string list" where
  "namesOf rs = map (\<lambda>r. fst (snd r)) rs"

definition statusesOf :: "string \<Rightarrow> (nat \<times> string \<times> string \<times> string) list \<Rightarrow> string list" where
  "statusesOf nm rs = map (\<lambda>r. toLowerCase (fst (snd (snd r)))) (filter (\<lambda>r. fst (snd r) = nm) rs)"

text \<open>
  A diagnostic is fatal when its severity is neither \<open>Information\<close> nor \<open>Warning\<close>.
  \<open>received p\<close> lists the diagnostics that behaviour \<open>p\<close> passes to the handler, and
  \<open>outcome p\<close> is how it ends, given the handler's answers.
\<close>

definition fatal :: "diagnostic \<Rightarrow> bool" where
  "fatal d = (severity d \<noteq> ''Information'' \<and> severity d \<noteq> ''Warning'')"

fun received :: "prepack \<Rightarrow> diagnostic list" where
  "received (Returns s) = []"
| "received (Throws e) = []"
| "received (Reports d onRecover onFail) = d # received (if fatal d then onFail else onRecover)"

fun outcome :: "prepack \<Rightarrow> serialized result" where
  "outcome (Returns s) = Returned s"
| "outcome (Throws e) = Threw e"
| "outcome (Reports d onRecover onFail) = outcome (if fatal d then onFail else onRecover)"

text \<open>The effect of the renderer at one visited node object of depth \<open>k\<close>.\<close>

fun visitRecord :: "chalk \<Rightarrow> state \<Rightarrow> nat \<times> string \<times> string \<times> string \<Rightarrow> state" where
  "visitRecord ch st (k, nm, s, m) = visitNode ch nm s m (2 * k) st"

text \<open>The line of the status section for one entry of \<open>components\<close>.\<close>

definition statusLine :: "chalk \<Rightarrow> string \<times> tracked \<Rightarrow> string" where
  "statusLine ch entry =
     (if snd entry = JString ''missing'' then red ch crossMark @ '' '' @ fst entry
      else green ch checkMark @ '' '' @ fst entry)"

text \<open>The three counter lines and the time line that end the summary.\<close>

definition aggregateLines :: "chalk \<Rightarrow> int \<Rightarrow> reactStats \<Rightarrow> state \<Rightarrow> string list" where
  "aggregateLines ch now result st =
     [gray ch ''Optimized Nodes'' @ '': '' @ natToString (componentsEvaluated result),
      gray ch ''Inlined Nodes'' @ '': '' @ natToString (inlinedComponents result),
      gray ch ''Optimized Trees'' @ '': '' @ natToString (optimizedTrees result),
      gray ch ''Compile time'' @ '': '' @ intToString ((now - startTime st) div 1000) @ ''s'' @ [newline]]"

text \<open>The state after the headers and the tree have been printed.\<close>

definition afterTree :: "chalk \<Rightarrow> reactStats \<Rightarrow> state \<Rightarrow> state" where
  "afterTree ch result st =
     snd (printReactEvaluationGraph ch (evaluatedRootNodes result) 0 (printHeaders ch st))"

subsection \<open>Example inputs\<close>

definition scenarioTree :: node where
  "scenarioTree =
     NodeArray [EvaluatedNode ''Foo'' ''INLINED'' [] (NodeArray []),
                EvaluatedNode ''Foo'' ''BAIL-OUT'' [] (NodeArray [])]"

definition scenarioResult :: reactStats where
  "scenarioResult =
     \<lparr>evaluatedRootNodes = scenarioTree, componentsEvaluated = 2, inlinedComponents = 1,
      optimizedTrees = 1\<rparr>"

definition noteDiagnostic :: diagnostic where
  "noteDiagnostic = \<lparr>severity = ''Information'', message = ''note''\<rparr>"

definition warnDiagnostic :: diagnostic where
  "warnDiagnostic = \<lparr>severity = ''Warning'', message = ''careful''\<rparr>"

definition fatalDiagnostic :: diagnostic where
  "fatalDiagnostic = \<lparr>severity = ''FatalError'', message = ''boom''\<rparr>"

definition okCompiler :: "string \<Rightarrow> prepack" where
  "okCompiler source =
     Reports noteDiagnostic
       (Returns \<lparr>reactStatistics = scenarioResult, code = ''out''\<rparr>)
       (Throws (CompilerError None ''unreachable''))"

definition failingCompiler :: "string \<Rightarrow> prepack" where
  "failingCompiler source =
     Reports warnDiagnostic
       (Reports fatalDiagnostic
          (Returns \<lparr>reactStatistics = scenarioResult, code = ''out''\<rparr>)
          (Throws (CompilerError None ''FatalError: boom'')))
       (Throws (CompilerError None ''unreachable''))"

definition listText :: string where
  "listText = ''Foo'' @ [CHR 0x0A] @ ''Bar'' @ [CHR 0x0A]"

definition inputOnly :: "string \<rightharpoonup> fsentry" where
  "inputOnly = [inputPath \<mapsto> File ''render()'']"

definition inputAndList :: "string \<rightharpoonup> fsentry" where
  "inputAndList = [inputPath \<mapsto> File ''render()'', componentsListPath \<mapsto> File listText]"

definition exampleTree :: node where
  "exampleTree =
     NodeArray
       [EvaluatedNode ''Foo'' ''INLINED'' []
          (NodeArray [EvaluatedNode ''Baz'' ''NEW_TREE'' ''root'' (NodeArray [])]),
        EvaluatedNode ''Foo'' ''BAIL-OUT'' [] (NodeArray [])]"

definition trackedState :: state where
  "trackedState =
     (initialState 0 Map.empty)\<lparr>components := [(''Foo'', JString ''missing''), (''Bar'', JString ''missing'')]\<rparr>"

definition seenState :: state where
  "seenState =
     (initialState 0 Map.empty)\<lparr>components := [(''Foo'', JArray [''missing'']), (''Bar'', JString ''missing'')],
        uniqueEvaluatedComponents := 1\<rparr>"

section \<open>Properties\<close>

subsection \<open>The walk as a fold over the visited node objects\<close>

lemma walk_eq:
  "printReactEvaluationGraph ch t (2 * k) st =
     ((if completes t then Returned () else Threw TypeError),
      foldl (visitRecord ch) st (visited t k))"
  "printChildren ch ts (2 * k) st =
     ((if list_all completes ts then Returned () else Threw TypeError),
      foldl (visitRecord ch) st (visitedChildren ts k))"
proof (induction t k and ts k arbitrary: st and st rule: visited_visitedChildren.induct)
  case (4 nm s msg cs k)
  have "printReactEvaluationGraph ch cs (2 * Suc k) (visitNode ch nm s msg (2 * k) st) =
     ((if completes cs then Returned () else Threw TypeError),
      foldl (visitRecord ch) (visitNode ch nm s msg (2 * k) st) (visited cs (Suc k)))"
    by (rule 4)
  then show ?case by simp
next
  case (6 c cs k)
  then show ?case by simp
qed simp_all

lemma walk_root:
  "printReactEvaluationGraph ch t 0 st =
     ((if completes t then Returned () else Threw TypeError),
      foldl (visitRecord ch) st (visited t 0))"
  using walk_eq(1) [of ch t 0 st] by simp

lemma visited_complete:
  "completes t \<Longrightarrow> visited t k = nodesAt t k"
  "list_all completes ts \<Longrightarrow> visitedChildren ts k = concat (map (\<lambda>c. nodesAt c k) ts)"
  by (induction t k and ts k rule: visited_visitedChildren.induct) auto

lemma visited_prefix:
  "prefix (visited t k) (nodesAt t k)"
  "prefix (visitedChildren ts k) (concat (map (\<lambda>c. nodesAt c k) ts))"
  by (induction t k and ts k rule: visited_visitedChildren.induct)
    (auto simp: visited_complete intro: prefix_order.trans)

subsection \<open>One tracking update\<close>

lemma setComponent_keys:
  "map_of (components st) n = Some v \<Longrightarrow> map fst (components (setComponent n w st)) = map fst (components st)"
proof -
  assume "map_of (components st) n = Some v"
  then have "n \<in> fst ` set (components st)"
    by (metis map_of_eq_None_iff option.distinct(1))
  then show ?thesis
    by (simp add: setComponent_def update_keys)
qed

lemma track_keys: "map fst (components (trackComponent n s st)) = map fst (components st)"
proof (cases "map_of (components st) n")
  case None
  then show ?thesis by (simp add: trackComponent_def)
next
  case (Some v)
  have *: "map_of (components (st\<lparr>uniqueEvaluatedComponents := c\<rparr>)) n = Some v" for c
    using Some by simp
  show ?thesis
    using Some setComponent_keys [OF Some] setComponent_keys [OF *]
    by (cases v) (simp_all add: trackComponent_def)
qed

lemma track_counter:
  "uniqueEvaluatedComponents (trackComponent n s st) =
     uniqueEvaluatedComponents st + (if map_of (components st) n = Some (JString ''missing'') then 1 else 0)"
  by (simp add: trackComponent_def setComponent_def split: option.splits tracked.splits)

lemma track_missing_iff:
  "map_of (components (trackComponent n s st)) m = Some (JString ''missing'') \<longleftrightarrow>
     m \<noteq> n \<and> map_of (components st) m = Some (JString ''missing'')"
  by (cases "m = n") (simp_all add: trackComponent_def setComponent_def update_conv' split: option.splits tracked.splits)

lemma track_array:
  "map_of (components st) m = Some (JArray xs) \<Longrightarrow>
   map_of (components (trackComponent n s st)) m = Some (JArray (if m = n then xs @ [s] else xs))"
  by (cases "m = n") (simp_all add: trackComponent_def setComponent_def update_conv' split: option.splits tracked.splits)

lemma track_rest:
  "stdout (trackComponent n s st) = stdout st"
  "stderr (trackComponent n s st) = stderr st"
  "errorsCaptured (trackComponent n s st) = errorsCaptured st"
  "startTime (trackComponent n s st) = startTime st"
  "files (trackComponent n s st) = files st"
  "exitCode (trackComponent n s st) = exitCode st"
  by (simp_all add: trackComponent_def setComponent_def split: option.splits tracked.splits)


lemma visitNode_stdout:
  "stdout (visitNode ch nm s m d st) = stdout st @ [replicate d CHR '' '' @ nodeLine ch nm (toLowerCase s) (messagePart m)]"
  by (simp add: visitNode_def Let_def console_log_def padStart_def track_rest messagePart_def)

lemma visitNode_components:
  "components (visitNode ch nm s m d st) = components (trackComponent nm (toLowerCase s) st)"
  "uniqueEvaluatedComponents (visitNode ch nm s m d st) = uniqueEvaluatedComponents (trackComponent nm (toLowerCase s) st)"
  by (simp_all add: visitNode_def Let_def console_log_def)

lemma visitNode_rest:
  "stderr (visitNode ch nm s m d st) = stderr st"
  "errorsCaptured (visitNode ch nm s m d st) = errorsCaptured st"
  "startTime (visitNode ch nm s m d st) = startTime st"
  "files (visitNode ch nm s m d st) = files st"
  "exitCode (visitNode ch nm s m d st) = exitCode st"
  by (simp_all add: visitNode_def Let_def console_log_def track_rest)

lemma fold_stdout:
  "stdout (foldl (visitRecord ch) st rs) = stdout st @ map (renderedLine ch) rs"
proof (induction rs arbitrary: st)
  case Nil
  show ?case by simp
next
  case (Cons r rs)
  obtain k nm s m where r: "r = (k, nm, s, m)" by (cases r) auto
  show ?case by (simp add: r Cons.IH visitNode_stdout renderedLine_def)
qed

lemma fold_keys:
  "map fst (components (foldl (visitRecord ch) st rs)) = map fst (components st)"
proof (induction rs arbitrary: st)
  case Nil
  show ?case by simp
next
  case (Cons r rs)
  obtain k nm s m where r: "r = (k, nm, s, m)" by (cases r) auto
  show ?case by (simp add: r Cons.IH visitNode_components track_keys)
qed

lemma visitRecord_rest:
  "stderr (visitRecord ch st r) = stderr st"
  "errorsCaptured (visitRecord ch st r) = errorsCaptured st"
  "startTime (visitRecord ch st r) = startTime st"
  "files (visitRecord ch st r) = files st"
  "exitCode (visitRecord ch st r) = exitCode st"
  by (cases r; simp add: visitNode_rest)+

lemma fold_rest:
  "stderr (foldl (visitRecord ch) st rs) = stderr st"
  "errorsCaptured (foldl (visitRecord ch) st rs) = errorsCaptured st"
  "startTime (foldl (visitRecord ch) st rs) = startTime st"
  "files (foldl (visitRecord ch) st rs) = files st"
  "exitCode (foldl (visitRecord ch) st rs) = exitCode st"
  by (induction rs arbitrary: st; simp add: visitRecord_rest)+

lemma fold_counter:
  "uniqueEvaluatedComponents (foldl (visitRecord ch) st rs) =
     uniqueEvaluatedComponents st +
     card (set (filter (\<lambda>n. map_of (components st) n = Some (JString ''missing'')) (namesOf rs)))"
proof (induction rs arbitrary: st)
  case Nil
  then show ?case by (simp add: namesOf_def)
next
  case (Cons r rs)
  obtain k nm s m where r: "r = (k, nm, s, m)" by (cases r) auto
  let ?st = "visitNode ch nm s m (2 * k) st"
  let ?P = "\<lambda>n. map_of (components st) n = Some (JString ''missing'')"
  let ?A = "set (filter ?P (namesOf rs))"
  have P': "\<And>n. map_of (components ?st) n = Some (JString ''missing'') \<longleftrightarrow> n \<noteq> nm \<and> ?P n"
    by (simp add: visitNode_components track_missing_iff)
  have set_eq: "set (filter (\<lambda>n. map_of (components ?st) n = Some (JString ''missing'')) (namesOf rs))
      = ?A - {nm}"
    using P' by auto
  have IH: "uniqueEvaluatedComponents (foldl (visitRecord ch) ?st rs) =
      uniqueEvaluatedComponents ?st + card (?A - {nm})"
    using Cons.IH [of ?st] set_eq by simp
  have names: "namesOf (r # rs) = nm # namesOf rs"
    by (simp add: namesOf_def r)
  show ?case
  proof (cases "?P nm")
    case True
    have "set (filter ?P (namesOf (r # rs))) = insert nm (?A - {nm})"
      using True names by auto
    moreover have "card (insert nm (?A - {nm})) = Suc (card (?A - {nm}))"
      by (rule card_insert_disjoint) auto
    ultimately have "card (set (filter ?P (namesOf (r # rs)))) = Suc (card (?A - {nm}))"
      by (simp only:)
    then show ?thesis
      using True IH by (simp add: r visitNode_components track_counter)
  next
    case False
    have "nm \<notin> ?A" using False by simp
    then have "set (filter ?P (namesOf (r # rs))) = ?A - {nm}"
      using False names by auto
    then show ?thesis
      using False IH by (simp add: r visitNode_components track_counter)
  qed
qed

lemma fold_not_missing:
  "map_of (components st) n \<noteq> Some (JString ''missing'') \<Longrightarrow>
   map_of (components (foldl (visitRecord ch) st rs)) n \<noteq> Some (JString ''missing'')"
proof (induction rs arbitrary: st)
  case Nil
  then show ?case by simp
next
  case (Cons r rs)
  obtain k nm s m where r: "r = (k, nm, s, m)" by (cases r) auto
  have "map_of (components (visitNode ch nm s m (2 * k) st)) n \<noteq> Some (JString ''missing'')"
    using Cons.prems by (simp add: visitNode_components track_missing_iff)
  from Cons.IH [OF this] show ?case by (simp add: r)
qed

lemma fold_array:
  "map_of (components st) n = Some (JArray xs) \<Longrightarrow>
   map_of (components (foldl (visitRecord ch) st rs)) n = Some (JArray (xs @ statusesOf n rs))"
proof (induction rs arbitrary: st xs)
  case Nil
  then show ?case by (simp add: statusesOf_def)
next
  case (Cons r rs)
  obtain k nm s m where r: "r = (k, nm, s, m)" by (cases r) auto
  have "map_of (components (visitNode ch nm s m (2 * k) st)) n = Some (JArray (if n = nm then xs @ [toLowerCase s] else xs))"
    using Cons.prems by (simp add: visitNode_components track_array)
  from Cons.IH [OF this] show ?case
    by (simp add: r statusesOf_def)
qed

lemma track_other:
  "m \<noteq> n \<Longrightarrow> map_of (components (trackComponent n s st)) m = map_of (components st) m"
  by (simp add: trackComponent_def setComponent_def update_conv' split: option.splits tracked.splits)

lemma fold_untouched:
  "n \<notin> set (namesOf rs) \<Longrightarrow>
   map_of (components (foldl (visitRecord ch) st rs)) n = map_of (components st) n"
proof (induction rs arbitrary: st)
  case Nil
  then show ?case by simp
next
  case (Cons r rs)
  obtain k nm s m where r: "r = (k, nm, s, m)" by (cases r) auto
  from Cons.prems have "n \<noteq> nm" and "n \<notin> set (namesOf rs)"
    by (simp_all add: namesOf_def r)
  then show ?case
    by (simp add: r Cons.IH visitNode_components track_other)
qed

subsection \<open>The renderer\<close>

lemma walk_result:
  "fst (printReactEvaluationGraph ch t d st) = (if completes t then Returned () else Threw TypeError)"
  "fst (printChildren ch ts d st) = (if list_all completes ts then Returned () else Threw TypeError)"
proof (induction ch t d st and ch ts d st rule: printReactEvaluationGraph_printChildren.induct)
  case (6 ch child rest depth st)
  show ?case
  proof (cases "printReactEvaluationGraph ch child depth st")
    case (Pair r st')
    then show ?thesis using 6 by (cases r) (auto split: if_splits)
  qed
qed simp_all

lemma fold_missing_iff:
  "map_of (components (foldl (visitRecord ch) st rs)) n = Some (JString ''missing'') \<longleftrightarrow>
     map_of (components st) n = Some (JString ''missing'') \<and> n \<notin> set (namesOf rs)"
proof (induction rs arbitrary: st)
  case Nil
  show ?case by (simp add: namesOf_def)
next
  case (Cons r rs)
  obtain k nm s m where r: "r = (k, nm, s, m)" by (cases r) auto
  have "namesOf (r # rs) = nm # namesOf rs" by (simp add: namesOf_def r)
  then show ?case
    by (auto simp: r Cons.IH visitNode_components track_missing_iff)
qed

lemma leading_spaces:
  "x \<noteq> [] \<Longrightarrow> hd x \<noteq> CHR '' '' \<Longrightarrow>
   length (takeWhile (\<lambda>c. c = CHR '' '') (replicate n CHR '' '' @ x)) = n"
  by (induction n) (cases x; simp)+

lemma nodeLine_head:
  "gray ch ''-'' \<noteq> [] \<Longrightarrow> nodeLine ch nm s m \<noteq> [] \<and> hd (nodeLine ch nm s m) = hd (gray ch ''-'')"
  by (simp add: nodeLine_def)

text \<open>
  Claim C7. The line of every node object is indented by twice the depth of the node
  object: the lines printed by a walk from depth 0 are those of the visited node objects
  in document order, each \<open>2 * k\<close> spaces followed by the line itself, where \<open>k\<close>
  counts the node objects above it; arrays, siblings and branching do not enter. The
  visited node objects are all of them when the walk goes through, and a prefix of them
  otherwise. When the colouring leaves the dash marker in front, the leading spaces of
  the line are exactly \<open>2 * k\<close>.
\<close>
theorem indentation_twice_depth:
  "stdout (snd (printReactEvaluationGraph ch t 0 st)) = stdout st @ map (renderedLine ch) (visited t 0)
   \<and> prefix (visited t 0) (nodesAt t 0)
   \<and> (completes t \<longrightarrow> visited t 0 = nodesAt t 0)
   \<and> (\<forall>k nm s m. renderedLine ch (k, nm, s, m) =
          replicate (2 * k) CHR '' '' @ nodeLine ch nm (toLowerCase s) (messagePart m))
   \<and> (gray ch ''-'' \<noteq> [] \<and> hd (gray ch ''-'') \<noteq> CHR '' '' \<longrightarrow>
        (\<forall>r \<in> set (nodesAt t 0).
           length (takeWhile (\<lambda>c. c = CHR '' '') (renderedLine ch r)) = 2 * fst r))"
proof -
  have "stdout (snd (printReactEvaluationGraph ch t 0 st)) = stdout st @ map (renderedLine ch) (visited t 0)"
    by (simp add: walk_root fold_stdout)
  moreover have "gray ch ''-'' \<noteq> [] \<and> hd (gray ch ''-'') \<noteq> CHR '' '' \<longrightarrow>
        (\<forall>r \<in> set (nodesAt t 0).
           length (takeWhile (\<lambda>c. c = CHR '' '') (renderedLine ch r)) = 2 * fst r)"
    by (auto simp: renderedLine_def nodeLine_head leading_spaces)
  ultimately show ?thesis
    by (simp add: visited_prefix visited_complete renderedLine_def)
qed

lemma lower_examples:
  "toLowerCase ''INLINED'' = ''inlined''"
  "toLowerCase ''BAIL-OUT'' = ''bail-out''"
  "toLowerCase ''NEW_TREE'' = ''new_tree''"
  by code_simp+

lemma visited_exampleTree:
  "visited exampleTree 0 =
     [(0, ''Foo'', ''INLINED'', []), (1, ''Baz'', ''NEW_TREE'', ''root''), (0, ''Foo'', ''BAIL-OUT'', [])]"
  by (simp add: exampleTree_def)

theorem indentation_twice_depth_witness:
  "stdout (snd (printReactEvaluationGraph plainChalk exampleTree 0 trackedState)) =
     [''- Foo (inlined)'', ''  - Baz (new_tree: root)'', ''- Foo (bail-out)'']
   \<and> visited exampleTree 0 = nodesAt exampleTree 0
   \<and> length (takeWhile (\<lambda>c. c = CHR '' '') (renderedLine plainChalk (1, ''Baz'', ''NEW_TREE'', ''root''))) = 2"
proof -
  have c: "completes exampleTree" by (simp add: exampleTree_def)
  have g: "gray plainChalk ''-'' \<noteq> [] \<and> hd (gray plainChalk ''-'') \<noteq> CHR '' ''"
    by (simp add: plainChalk_def)
  have m: "(1, ''Baz'', ''NEW_TREE'', ''root'') \<in> set (nodesAt exampleTree 0)"
    by (simp add: exampleTree_def)
  have out: "stdout trackedState @ map (renderedLine plainChalk) (visited exampleTree 0) =
     [''- Foo (inlined)'', ''  - Baz (new_tree: root)'', ''- Foo (bail-out)'']"
    by (simp add: visited_exampleTree trackedState_def initialState_def renderedLine_def
        nodeLine_def messagePart_def plainChalk_def lower_examples eval_nat_numeral)
  from indentation_twice_depth [of plainChalk exampleTree trackedState] c g m out
  show ?thesis by auto
qed

text \<open>
  Claim C2. The handler appends every diagnostic to \<open>errorsCaptured\<close>; for severity
  \<open>Information\<close> it prints the message and answers \<open>Recover\<close>, for \<open>Warning\<close> it
  answers \<open>Recover\<close> and prints nothing, for any other severity it answers \<open>Fail\<close>.
\<close>
theorem errorHandler_policy:
  "errorsCaptured (snd (errorHandler d st)) = errorsCaptured st @ [d]
   \<and> (severity d = ''Information'' \<longrightarrow>
        fst (errorHandler d st) = Recover \<and> stdout (snd (errorHandler d st)) = stdout st @ [message d])
   \<and> (severity d = ''Warning'' \<longrightarrow>
        fst (errorHandler d st) = Recover \<and> stdout (snd (errorHandler d st)) = stdout st)
   \<and> (severity d \<noteq> ''Information'' \<and> severity d \<noteq> ''Warning'' \<longrightarrow>
        fst (errorHandler d st) = Fail \<and> stdout (snd (errorHandler d st)) = stdout st)"
  by (simp add: errorHandler_def console_log_def Let_def)

theorem errorHandler_policy_witness:
  "fst (errorHandler \<lparr>severity = ''Information'', message = ''note''\<rparr> trackedState) = Recover
   \<and> stdout (snd (errorHandler \<lparr>severity = ''Information'', message = ''note''\<rparr> trackedState)) = [''note'']
   \<and> fst (errorHandler \<lparr>severity = ''Warning'', message = ''careful''\<rparr> trackedState) = Recover
   \<and> stdout (snd (errorHandler \<lparr>severity = ''Warning'', message = ''careful''\<rparr> trackedState)) = []
   \<and> fst (errorHandler \<lparr>severity = ''FatalError'', message = ''boom''\<rparr> trackedState) = Fail
   \<and> errorsCaptured (snd (errorHandler \<lparr>severity = ''FatalError'', message = ''boom''\<rparr> trackedState))
        = [\<lparr>severity = ''FatalError'', message = ''boom''\<rparr>]"
  using errorHandler_policy [of "\<lparr>severity = ''Information'', message = ''note''\<rparr>" trackedState]
    errorHandler_policy [of "\<lparr>severity = ''Warning'', message = ''careful''\<rparr>" trackedState]
    errorHandler_policy [of "\<lparr>severity = ''FatalError'', message = ''boom''\<rparr>" trackedState]
  by (simp add: trackedState_def initialState_def)

text \<open>
  Claim C3. The walk is the fold of the per-node update over the visited node objects.
  The counter grows by one at an occurrence exactly when the name was tracked as
  \<open>"missing"\<close> before the walk and has not occurred earlier in it, so over the whole
  walk it grows by the number of distinct such names. A walk that goes through visits
  every node object of the tree.
\<close>
theorem unique_counter_once_per_name:
  "snd (printReactEvaluationGraph ch t 0 st) = foldl (visitRecord ch) st (visited t 0)
   \<and> uniqueEvaluatedComponents (snd (printReactEvaluationGraph ch t 0 st)) =
       uniqueEvaluatedComponents st +
       card (set (filter (\<lambda>n. map_of (components st) n = Some (JString ''missing''))
                    (namesOf (visited t 0))))
   \<and> (\<forall>pre k nm s m post. visited t 0 = pre @ (k, nm, s, m) # post \<longrightarrow>
        uniqueEvaluatedComponents (visitRecord ch (foldl (visitRecord ch) st pre) (k, nm, s, m)) =
          uniqueEvaluatedComponents (foldl (visitRecord ch) st pre) +
          (if map_of (components st) nm = Some (JString ''missing'') \<and> nm \<notin> set (namesOf pre)
           then 1 else 0))
   \<and> (completes t \<longrightarrow> visited t 0 = nodesAt t 0)"
  by (simp add: walk_root fold_counter visitNode_components track_counter fold_missing_iff
      visited_complete)

theorem unique_counter_once_per_name_witness:
  "uniqueEvaluatedComponents (snd (printReactEvaluationGraph plainChalk exampleTree 0 trackedState)) = 1
   \<and> uniqueEvaluatedComponents (visitRecord plainChalk (foldl (visitRecord plainChalk) trackedState []) (0, ''Foo'', ''INLINED'', [])) =
       uniqueEvaluatedComponents (foldl (visitRecord plainChalk) trackedState []) + 1
   \<and> uniqueEvaluatedComponents (visitRecord plainChalk (foldl (visitRecord plainChalk) trackedState
          [(0, ''Foo'', ''INLINED'', []), (1, ''Baz'', ''NEW_TREE'', ''root'')]) (0, ''Foo'', ''BAIL-OUT'', [])) =
       uniqueEvaluatedComponents (foldl (visitRecord plainChalk) trackedState
          [(0, ''Foo'', ''INLINED'', []), (1, ''Baz'', ''NEW_TREE'', ''root'')])"
proof -
  let ?r1 = "(0::nat, ''Foo'', ''INLINED'', [] :: string)"
  let ?r2 = "(1::nat, ''Baz'', ''NEW_TREE'', ''root'')"
  let ?r3 = "(0::nat, ''Foo'', ''BAIL-OUT'', [] :: string)"
  have v1: "visited exampleTree 0 = [] @ ?r1 # [?r2, ?r3]"
    by (simp add: visited_exampleTree)
  have v3: "visited exampleTree 0 = [?r1, ?r2] @ ?r3 # []"
    by (simp add: visited_exampleTree)
  have n: "card (set (filter (\<lambda>n. map_of (components trackedState) n = Some (JString ''missing''))
                    (namesOf (visited exampleTree 0)))) = 1"
    by (simp add: visited_exampleTree namesOf_def trackedState_def)
  have u: "uniqueEvaluatedComponents trackedState = 0"
    by (simp add: trackedState_def initialState_def)
  have f: "map_of (components trackedState) ''Foo'' = Some (JString ''missing'')"
    by (simp add: trackedState_def)
  note T = unique_counter_once_per_name [of plainChalk exampleTree trackedState]
  note total = T [THEN conjunct2, THEN conjunct1]
  note each = T [THEN conjunct2, THEN conjunct2, THEN conjunct1, rule_format]
  have "uniqueEvaluatedComponents (snd (printReactEvaluationGraph plainChalk exampleTree 0 trackedState)) = 1"
    unfolding total n u by simp
  moreover have "uniqueEvaluatedComponents (visitRecord plainChalk (foldl (visitRecord plainChalk) trackedState []) ?r1) =
       uniqueEvaluatedComponents (foldl (visitRecord plainChalk) trackedState []) + 1"
    unfolding each [OF v1] using f by (simp add: namesOf_def)
  moreover have "uniqueEvaluatedComponents (visitRecord plainChalk (foldl (visitRecord plainChalk) trackedState [?r1, ?r2]) ?r3) =
       uniqueEvaluatedComponents (foldl (visitRecord plainChalk) trackedState [?r1, ?r2])"
    unfolding each [OF v3] using f by (simp add: namesOf_def)
  ultimately show ?thesis by (simp del: visitRecord.simps foldl.simps)
qed

text \<open>
  Claim C4. An entry that is not the string \<open>"missing"\<close> is not that string after one
  node update, nor after a walk of any tree from any depth; an entry that is an array
  only has the lower-cased statuses of the later occurrences of its name appended.
\<close>
theorem never_back_to_missing:
  "(map_of (components st) n \<noteq> Some (JString ''missing'') \<longrightarrow>
      map_of (components (visitNode ch nm s m d st)) n \<noteq> Some (JString ''missing''))
   \<and> (map_of (components st) n \<noteq> Some (JString ''missing'') \<longrightarrow>
      map_of (components (snd (printReactEvaluationGraph ch t (2 * k) st))) n \<noteq> Some (JString ''missing''))
   \<and> (map_of (components st) n = Some (JArray xs) \<longrightarrow>
      map_of (components (snd (printReactEvaluationGraph ch t (2 * k) st))) n =
        Some (JArray (xs @ statusesOf n (visited t k))))"
  by (simp add: walk_eq fold_not_missing fold_array visitNode_components track_missing_iff)

theorem never_back_to_missing_witness:
  "map_of (components seenState) ''Foo'' = Some (JArray [''missing''])
   \<and> map_of (components (visitNode plainChalk ''Foo'' ''INLINED'' [] 0 seenState)) ''Foo'' \<noteq> Some (JString ''missing'')
   \<and> map_of (components (snd (printReactEvaluationGraph plainChalk exampleTree (2 * 0) seenState))) ''Foo'' =
        Some (JArray [''missing'', ''inlined'', ''bail-out''])"
proof -
  have a: "map_of (components seenState) ''Foo'' = Some (JArray [''missing''])"
    by (simp add: seenState_def)
  have b: "map_of (components seenState) ''Foo'' \<noteq> Some (JString ''missing'')"
    by (simp add: seenState_def)
  have c: "statusesOf ''Foo'' (visited exampleTree 0) = [''inlined'', ''bail-out'']"
    by (simp add: visited_exampleTree statusesOf_def lower_examples)
  note T = never_back_to_missing [of seenState "''Foo''" plainChalk "''Foo''" "''INLINED''" "[]" 0
      exampleTree 0 "[''missing'']"]
  from T a b c show ?thesis by simp
qed

text \<open>
  Claim C10, as amended. The walk returns normally exactly when every value it meets is
  an array or a node object (an empty array included); when a \<open>children\<close> field met on
  the way is absent, or is neither an array nor a node object, the walk throws a
  \<open>TypeError\<close>.
\<close>
theorem walk_returns_iff_wellformed:
  "(fst (printReactEvaluationGraph ch t d st) = Returned ()) = completes t
   \<and> (\<not> completes t \<longrightarrow> fst (printReactEvaluationGraph ch t d st) = Threw TypeError)
   \<and> completes (NodeArray []) \<and> \<not> completes Absent \<and> \<not> completes Primitive
   \<and> completes (NodeArray cs) = (\<forall>c \<in> set cs. completes c)
   \<and> completes (EvaluatedNode nm s m c) = completes c"
  by (simp add: walk_result list_all_iff)

theorem walk_returns_iff_wellformed_witness:
  "fst (printReactEvaluationGraph plainChalk exampleTree 0 trackedState) = Returned ()
   \<and> fst (printReactEvaluationGraph plainChalk (NodeArray [EvaluatedNode ''Foo'' ''INLINED'' [] Primitive]) 0 trackedState)
       = Threw TypeError"
proof -
  have a: "completes exampleTree" by (simp add: exampleTree_def)
  have b: "\<not> completes (NodeArray [EvaluatedNode ''Foo'' ''INLINED'' [] Primitive])" by simp
  from walk_returns_iff_wellformed [of plainChalk exampleTree 0 trackedState] a
    walk_returns_iff_wellformed [of plainChalk "NodeArray [EvaluatedNode ''Foo'' ''INLINED'' [] Primitive]" 0 trackedState] b
  show ?thesis by blast
qed

text \<open>
  Claim C10 as stated fails: a node object without a \<open>children\<close> field has its line
  printed, and the recursive call on the absent value throws.
\<close>

theorem absent_children_throws:
  "fst (printReactEvaluationGraph plainChalk (EvaluatedNode ''Foo'' ''INLINED'' [] Absent) 0 trackedState)
     = Threw TypeError
   \<and> stdout (snd (printReactEvaluationGraph plainChalk (EvaluatedNode ''Foo'' ''INLINED'' [] Absent) 0 trackedState))
     = [''- Foo (inlined)'']"
  by (simp add: visitNode_def Let_def console_log_def padStart_def trackComponent_def setComponent_def
      trackedState_def initialState_def nodeLine_def plainChalk_def lower_examples)

text \<open>
  Claim C1, on the code. In the scenario of the claim the first occurrence of \<open>Foo\<close>
  stores the array holding the previous value \<open>"missing"\<close>, not the observed status
  \<open>inlined\<close>; the second occurrence appends \<open>bail-out\<close>, and \<open>Bar\<close> stays
  \<open>"missing"\<close>.
\<close>
theorem first_occurrence_stores_missing:
  "components (snd (printReactEvaluationGraph plainChalk scenarioTree 0 trackedState)) =
     [(''Foo'', JArray [''missing'', ''bail-out'']), (''Bar'', JString ''missing'')]
   \<and> components (visitNode plainChalk ''Foo'' ''INLINED'' [] 0 trackedState) =
     [(''Foo'', JArray [''missing'']), (''Bar'', JString ''missing'')]"
  by (simp add: scenarioTree_def visitNode_def Let_def console_log_def padStart_def trackComponent_def
      setComponent_def trackedState_def initialState_def nodeLine_def plainChalk_def lower_examples)

subsection \<open>The component list, the compiler and the summary\<close>

lemma split_nonempty: "split sep s \<noteq> []"
  by (induction s) (auto split: list.splits)

lemma split_no_sep: "w \<in> set (split sep s) \<Longrightarrow> sep \<notin> set w"
  by (induction s arbitrary: w) (auto split: list.splits if_splits)

lemma split_join: "concat (map (\<lambda>w. sep # w) (split sep s)) = sep # s"
  by (induction s) (auto split: list.splits)

lemma prepackSources_eq:
  "prepackSources p st =
     (outcome p,
      st\<lparr>errorsCaptured := errorsCaptured st @ received p,
         stdout := stdout st @ map message (filter (\<lambda>d. severity d = ''Information'') (received p))\<rparr>)"
  by (induction p arbitrary: st) (auto simp: errorHandler_def console_log_def Let_def fatal_def)

lemma fold_console_error:
  "foldl (\<lambda>s error. console_error (ErrDiagnostic error) s) st ds =
     st\<lparr>stderr := stderr st @ map ErrDiagnostic ds\<rparr>"
  by (induction ds arbitrary: st) (simp_all add: console_error_def)

lemma compileSource_threw:
  "outcome (compiler source) = Threw e \<Longrightarrow>
   compileSource compiler source st =
     (Threw e,
      st\<lparr>errorsCaptured := errorsCaptured st @ received (compiler source),
         stdout := stdout st @ map message (filter (\<lambda>d. severity d = ''Information'') (received (compiler source))),
         stderr := stderr st @ map ErrDiagnostic (errorsCaptured st @ received (compiler source))\<rparr>)"
  by (simp add: compileSource_def prepackSources_eq fold_console_error)

lemma compileSource_returned:
  "outcome (compiler source) = Returned s \<Longrightarrow>
   compileSource compiler source st =
     (Returned (reactStatistics s, code s),
      st\<lparr>errorsCaptured := errorsCaptured st @ received (compiler source),
         stdout := stdout st @ map message (filter (\<lambda>d. severity d = ''Information'') (received (compiler source)))\<rparr>)"
  by (simp add: compileSource_def prepackSources_eq)

lemma fold_setComponent_rest:
  "files (foldl (\<lambda>s n. setComponent n v s) st ns) = files st"
  "stdout (foldl (\<lambda>s n. setComponent n v s) st ns) = stdout st"
  "stderr (foldl (\<lambda>s n. setComponent n v s) st ns) = stderr st"
  "errorsCaptured (foldl (\<lambda>s n. setComponent n v s) st ns) = errorsCaptured st"
  "uniqueEvaluatedComponents (foldl (\<lambda>s n. setComponent n v s) st ns) = uniqueEvaluatedComponents st"
  "startTime (foldl (\<lambda>s n. setComponent n v s) st ns) = startTime st"
  "exitCode (foldl (\<lambda>s n. setComponent n v s) st ns) = exitCode st"
  by (induction ns arbitrary: st; simp add: setComponent_def)+

lemma fold_setComponent_map_of:
  "map_of (components (foldl (\<lambda>s n. setComponent n v s) st ns)) k =
     (if k \<in> set ns then Some v else map_of (components st) k)"
  by (induction ns arbitrary: st) (auto simp: setComponent_def update_conv')

lemma fold_setComponent_keys:
  "set (map fst (components (foldl (\<lambda>s n. setComponent n v s) st ns))) =
     set (map fst (components st)) \<union> set ns"
proof -
  have "dom (map_of (components (foldl (\<lambda>s n. setComponent n v s) st ns))) =
      dom (map_of (components st)) \<union> set ns"
    by (auto simp: fold_setComponent_map_of dom_def split: if_splits)
  then show ?thesis by (simp add: dom_map_of_conv_image_fst)
qed

lemma fold_setComponent_distinct:
  "distinct (map fst (components st)) \<Longrightarrow>
   distinct (map fst (components (foldl (\<lambda>s n. setComponent n v s) st ns)))"
  by (induction ns arbitrary: st) (auto simp: setComponent_def distinct_update)

lemma update_same_value:
  "distinct ks \<Longrightarrow>
   AList.update n v (map (\<lambda>k. (k, v)) ks) = map (\<lambda>k. (k, v)) (if n \<in> set ks then ks else ks @ [n])"
  by (induction ks) auto

lemma fold_setComponent_fresh:
  "components st = [] \<Longrightarrow>
   components (foldl (\<lambda>s n. setComponent n v s) st ns) = map (\<lambda>k. (k, v)) (rev (remdups (rev ns)))"
proof (induction ns rule: rev_induct)
  case Nil
  then show ?case by simp
next
  case (snoc n ns)
  have "components (foldl (\<lambda>s n. setComponent n v s) st (ns @ [n])) =
      AList.update n v (map (\<lambda>k. (k, v)) (rev (remdups (rev ns))))"
    using snoc by (simp add: setComponent_def)
  also have "\<dots> = map (\<lambda>k. (k, v)) (if n \<in> set (rev (remdups (rev ns))) then rev (remdups (rev ns)) else rev (remdups (rev ns)) @ [n])"
    by (rule update_same_value) simp
  finally show ?case by simp
qed

lemma printStatus_eq: "printStatus ch st entry = console_log (statusLine ch entry) st"
  by (cases entry) (simp add: printStatus_def statusLine_def)

lemma fold_printStatus:
  "foldl (printStatus ch) st es = st\<lparr>stdout := stdout st @ map (statusLine ch) es\<rparr>"
  by (induction es arbitrary: st) (simp_all add: printStatus_eq console_log_def)

lemma printSummary_tracked:
  "components st \<noteq> [] \<Longrightarrow>
   printSummary ch now result st =
     st\<lparr>stdout := stdout st
        @ [newline # inverse ch ''=== Status ==='' @ [newline]]
        @ map (statusLine ch) (components st)
        @ [newline # inverse ch ''=== Summary ==='' @ [newline],
           gray ch ''Optimized Components'' @ '': '' @ natToString (uniqueEvaluatedComponents st)
             @ ''/'' @ natToString (length (components st))]
        @ aggregateLines ch now result st\<rparr>"
  by (simp add: printSummary_def Let_def fold_printStatus console_log_def aggregateLines_def)

lemma printSummary_untracked:
  "components st = [] \<Longrightarrow>
   printSummary ch now result st =
     st\<lparr>stdout := stdout st
        @ [newline # inverse ch ''=== Summary ==='' @ [newline]]
        @ aggregateLines ch now result st\<rparr>"
  by (simp add: printSummary_def Let_def console_log_def aggregateLines_def)

lemma afterTree_eq:
  "afterTree ch result st = foldl (visitRecord ch) (printHeaders ch st) (visited (evaluatedRootNodes result) 0)"
  by (simp add: afterTree_def walk_root)

lemma printHeaders_rest:
  "components (printHeaders ch st) = components st"
  "uniqueEvaluatedComponents (printHeaders ch st) = uniqueEvaluatedComponents st"
  "startTime (printHeaders ch st) = startTime st"
  "stderr (printHeaders ch st) = stderr st"
  "exitCode (printHeaders ch st) = exitCode st"
  by (simp_all add: printHeaders_def console_log_def)

lemma afterTree_keys: "map fst (components (afterTree ch result st)) = map fst (components st)"
  by (simp add: afterTree_eq fold_keys printHeaders_rest)

lemma afterTree_empty: "components (afterTree ch result st) = [] \<longleftrightarrow> components st = []"
  using afterTree_keys [of ch result st] by (metis map_is_Nil_conv)

lemma printReport_eq:
  "printReport ch now result st =
     (if completes (evaluatedRootNodes result)
      then (Returned (), printSummary ch now result (afterTree ch result st))
      else (Threw TypeError, afterTree ch result st))"
  by (simp add: printReport_def afterTree_def walk_root)

text \<open>
  Claim C8. When the tree has been rendered and \<open>components\<close> is not empty, the
  report goes on with the status header, one line per entry of \<open>components\<close> in the
  order of the map (a cross mark and the name when the entry is still \<open>"missing"\<close>, a
  check mark and the name otherwise), the summary header and the line
  \<open>Optimized Components: U/T\<close> with the counter and the number of entries, then the
  aggregate lines. Rendering keeps the keys and their order, and leaves the entry of a
  name that the walk never meets as it was, so such a name keeps its cross mark.
\<close>
theorem summary_lists_every_entry:
  "completes (evaluatedRootNodes result) \<and> components st \<noteq> [] \<longrightarrow>
     fst (printReport ch now result st) = Returned ()
     \<and> stdout (snd (printReport ch now result st)) =
         stdout (afterTree ch result st)
         @ [newline # inverse ch ''=== Status ==='' @ [newline]]
         @ map (statusLine ch) (components (afterTree ch result st))
         @ [newline # inverse ch ''=== Summary ==='' @ [newline],
            gray ch ''Optimized Components'' @ '': ''
              @ natToString (uniqueEvaluatedComponents (afterTree ch result st))
              @ ''/'' @ natToString (length (components (afterTree ch result st)))]
         @ aggregateLines ch now result st
     \<and> map fst (components (afterTree ch result st)) = map fst (components st)
     \<and> (\<forall>n. n \<notin> set (namesOf (visited (evaluatedRootNodes result) 0)) \<longrightarrow>
           map_of (components (afterTree ch result st)) n = map_of (components st) n)
     \<and> (\<forall>n v. statusLine ch (n, v) =
           (if v = JString ''missing'' then red ch crossMark @ '' '' @ n
            else green ch checkMark @ '' '' @ n))"
proof (intro impI, elim conjE)
  assume c: "completes (evaluatedRootNodes result)" and t: "components st \<noteq> []"
  have ne: "components (afterTree ch result st) \<noteq> []"
    using t by (simp add: afterTree_empty)
  have st: "startTime (afterTree ch result st) = startTime st"
    by (simp add: afterTree_eq fold_rest printHeaders_rest)
  have agg: "aggregateLines ch now result (afterTree ch result st) = aggregateLines ch now result st"
    by (simp add: aggregateLines_def st)
  have "stdout (snd (printReport ch now result st)) =
         stdout (afterTree ch result st)
         @ [newline # inverse ch ''=== Status ==='' @ [newline]]
         @ map (statusLine ch) (components (afterTree ch result st))
         @ [newline # inverse ch ''=== Summary ==='' @ [newline],
            gray ch ''Optimized Components'' @ '': ''
              @ natToString (uniqueEvaluatedComponents (afterTree ch result st))
              @ ''/'' @ natToString (length (components (afterTree ch result st)))]
         @ aggregateLines ch now result st"
    using c by (simp add: printReport_eq printSummary_tracked [OF ne] agg)
  moreover have "fst (printReport ch now result st) = Returned ()"
    using c by (simp add: printReport_eq)
  moreover have "\<forall>n. n \<notin> set (namesOf (visited (evaluatedRootNodes result) 0)) \<longrightarrow>
           map_of (components (afterTree ch result st)) n = map_of (components st) n"
    by (simp add: afterTree_eq fold_untouched printHeaders_rest)
  ultimately show "fst (printReport ch now result st) = Returned ()
     \<and> stdout (snd (printReport ch now result st)) =
         stdout (afterTree ch result st)
         @ [newline # inverse ch ''=== Status ==='' @ [newline]]
         @ map (statusLine ch) (components (afterTree ch result st))
         @ [newline # inverse ch ''=== Summary ==='' @ [newline],
            gray ch ''Optimized Components'' @ '': ''
              @ natToString (uniqueEvaluatedComponents (afterTree ch result st))
              @ ''/'' @ natToString (length (components (afterTree ch result st)))]
         @ aggregateLines ch now result st
     \<and> map fst (components (afterTree ch result st)) = map fst (components st)
     \<and> (\<forall>n. n \<notin> set (namesOf (visited (evaluatedRootNodes result) 0)) \<longrightarrow>
           map_of (components (afterTree ch result st)) n = map_of (components st) n)
     \<and> (\<forall>n v. statusLine ch (n, v) =
           (if v = JString ''missing'' then red ch crossMark @ '' '' @ n
            else green ch checkMark @ '' '' @ n))"
    by (simp add: afterTree_keys statusLine_def)
qed

lemma readComponentsList_file:
  "files st componentsListPath = Some (File txt) \<Longrightarrow>
   readComponentsList st =
     (Returned (), foldl (\<lambda>s n. setComponent n (JString ''missing'') s) st (split CHR 0x0A txt))"
  by (simp add: readComponentsList_def existsSync_def readFileAsync_def)

lemma readComponentsList_absent:
  "files st componentsListPath = None \<Longrightarrow> readComponentsList st = (Returned (), st)"
  by (simp add: readComponentsList_def existsSync_def)

lemma readComponentsList_rest:
  "files st componentsListPath \<noteq> Some Directory \<Longrightarrow> fst (readComponentsList st) = Returned ()"
  "files (snd (readComponentsList st)) = files st"
  "stdout (snd (readComponentsList st)) = stdout st"
  "stderr (snd (readComponentsList st)) = stderr st"
  "errorsCaptured (snd (readComponentsList st)) = errorsCaptured st"
  by (auto simp: readComponentsList_def existsSync_def readFileAsync_def fold_setComponent_rest
      split: option.splits fsentry.splits)

text \<open>
  Claim C9. When the list file is there, \<open>readComponentsList\<close> returns normally, the
  keys of \<open>components\<close> afterwards are the old keys and every piece of the text split
  at the newline character, each piece mapped to \<open>"missing"\<close>; starting from the
  empty map the entries are the pieces in the order of their first occurrence. The
  pieces hold no newline and, joined by newlines, give the text back, so a text that
  ends in a newline yields the empty string as its last piece.
\<close>
theorem components_list_registered:
  assumes "files st componentsListPath = Some (File txt)"
  shows "fst (readComponentsList st) = Returned ()
    \<and> set (map fst (components (snd (readComponentsList st)))) =
        set (map fst (components st)) \<union> set (split CHR 0x0A txt)
    \<and> (\<forall>n \<in> set (split CHR 0x0A txt).
          map_of (components (snd (readComponentsList st))) n = Some (JString ''missing''))
    \<and> (components st = [] \<longrightarrow>
          components (snd (readComponentsList st)) =
            map (\<lambda>n. (n, JString ''missing'')) (rev (remdups (rev (split CHR 0x0A txt)))))
    \<and> concat (map (\<lambda>w. CHR 0x0A # w) (split CHR 0x0A txt)) = CHR 0x0A # txt
    \<and> (\<forall>w \<in> set (split CHR 0x0A txt). CHR 0x0A \<notin> set w)"
  using assms
  by (simp add: readComponentsList_file fold_setComponent_keys [simplified] fold_setComponent_map_of
      fold_setComponent_fresh split_join split_no_sep)

text \<open>
  Claim C6. When the compiler throws \<open>e\<close> for the source read from the input file,
  every diagnostic it passed to the handler has been captured, \<open>compileSource\<close> prints
  all captured diagnostics in capture order to the error stream and throws \<open>e\<close> again,
  and the chain ends by printing the trace of \<open>e\<close> and leaving with exit code 1.
\<close>
theorem compiler_failure_dumps_diagnostics:
  assumes "files st componentsListPath \<noteq> Some Directory"
    and "files st inputPath = Some (File source)"
    and "outcome (compiler source) = Threw e"
  shows "fst (prepackSources (compiler source) st') = Threw e
    \<and> errorsCaptured (snd (prepackSources (compiler source) st')) =
        errorsCaptured st' @ received (compiler source)
    \<and> fst (compileSource compiler source st') = Threw e
    \<and> stderr (snd (compileSource compiler source st')) =
        stderr st' @ map ErrDiagnostic (errorsCaptured st' @ received (compiler source))
    \<and> stderr (script ch compiler now st) =
        stderr st @ map ErrDiagnostic (errorsCaptured st @ received (compiler source))
          @ [ErrText (errorTrace e)]
    \<and> exitCode (script ch compiler now st) = Some 1"
proof -
  obtain st1 where r: "readComponentsList st = (Returned (), st1)"
    using readComponentsList_rest(1) [OF assms(1)] by (cases "readComponentsList st") auto
  have st1: "files st1 = files st" "stderr st1 = stderr st" "errorsCaptured st1 = errorsCaptured st"
    using readComponentsList_rest(2,4,5) [of st] r by simp_all
  have "compileFile compiler st1 =
      (Threw e, snd (compileSource compiler source st1))"
    using assms(2) st1 by (simp add: compileFile_def readFileAsync_def compileSource_threw [of compiler source e, OF assms(3)])
  then have "script ch compiler now st = onRejected e (snd (compileSource compiler source st1))"
    by (simp add: script_def r)
  then show ?thesis
    using st1 by (simp add: onRejected_def console_error_def compileSource_threw [of compiler source e, OF assms(3)] prepackSources_eq assms(3))
qed

text \<open>
  Claim C5. When no list file is there, \<open>readComponentsList\<close> returns normally and
  changes nothing, so \<open>components\<close> stays empty through the whole chain; what the
  chain prints after the tree is then only the summary header and the aggregate lines
  (nothing at all when the walk or the compiler throws): no status section and no
  \<open>Optimized Components\<close> line.
\<close>
theorem missing_list_skips_component_report:
  assumes "files st componentsListPath = None" and "components st = []"
  shows "readComponentsList st = (Returned (), st)
    \<and> components (script ch compiler now st) = []
    \<and> (\<forall>result st2. compileFile compiler st = (Returned result, st2) \<longrightarrow>
          components st2 = []
          \<and> components (afterTree ch result st2) = []
          \<and> stdout (script ch compiler now st) =
              stdout (afterTree ch result st2)
              @ (if completes (evaluatedRootNodes result)
                 then [newline # inverse ch ''=== Summary ==='' @ [newline]]
                      @ aggregateLines ch now result st2
                 else []))
    \<and> (\<forall>e st2. compileFile compiler st = (Threw e, st2) \<longrightarrow>
          stdout (script ch compiler now st) = stdout st2)"
proof -
  have r: "readComponentsList st = (Returned (), st)"
    using assms(1) by (rule readComponentsList_absent)
  have reject: "components (onRejected e s) = components s" "stdout (onRejected e s) = stdout s" for e s
    by (simp_all add: onRejected_def console_error_def)
  have summary: "components (printSummary ch now result s) = components s" for result s
    by (cases "components s = []") (simp_all add: printSummary_tracked printSummary_untracked)
  have compile: "components st2 = []" if "compileFile compiler st = (r2, st2)" for r2 st2
    using that assms(2)
    by (auto simp: compileFile_def compileSource_def prepackSources_eq fold_console_error
        writeFileAsync_def split: result.splits option.splits fsentry.splits prod.splits)
  have ok: "components st2 = [] \<and> components (afterTree ch result st2) = []
      \<and> stdout (script ch compiler now st) =
          stdout (afterTree ch result st2)
          @ (if completes (evaluatedRootNodes result)
             then [newline # inverse ch ''=== Summary ==='' @ [newline]]
                  @ aggregateLines ch now result st2
             else [])"
    if c: "compileFile compiler st = (Returned result, st2)" for result st2
  proof -
    have e2: "components st2 = []" using compile [OF c] .
    have e3: "components (afterTree ch result st2) = []"
      using e2 by (simp add: afterTree_empty)
    have t3: "startTime (afterTree ch result st2) = startTime st2"
      by (simp add: afterTree_eq fold_rest printHeaders_rest)
    have agg: "aggregateLines ch now result (afterTree ch result st2) = aggregateLines ch now result st2"
      by (simp add: aggregateLines_def t3)
    show ?thesis
      using e2 e3 by (simp add: script_def r c printReport_eq printSummary_untracked agg reject)
  qed
  have comps: "components (script ch compiler now st) = []"
  proof (cases "compileFile compiler st")
    case (Pair r2 st2)
    show ?thesis
    proof (cases r2)
      case (Returned result)
      have "components (afterTree ch result st2) = []"
        using ok [of result st2] Pair Returned by simp
      then show ?thesis
        using Pair Returned by (simp add: script_def r printReport_eq reject summary)
    next
      case (Threw e)
      then show ?thesis
        using Pair compile [OF Pair] by (simp add: script_def r reject)
    qed
  qed
  have threw: "stdout (script ch compiler now st) = stdout st2"
    if "compileFile compiler st = (Threw e, st2)" for e st2
    using that by (simp add: script_def r reject)
  from r comps ok threw show ?thesis by blast
qed

lemma paths_distinct:
  "inputPath \<noteq> componentsListPath" "componentsListPath \<noteq> inputPath"
  "outputPath \<noteq> componentsListPath" "outputPath \<noteq> inputPath"
  by (simp_all add: inputPath_def componentsListPath_def outputPath_def)

lemma number_examples:
  "natToString 0 = ''0''" "natToString 1 = ''1''" "natToString (Suc 0) = ''1''" "natToString 2 = ''2''"
  "natToString (Suc (Suc 0)) = ''2''"
  "intToString 2 = ''2''"
  by code_simp+

theorem components_list_registered_witness:
  "components (snd (readComponentsList (initialState 0 inputAndList))) =
     [(''Foo'', JString ''missing''), (''Bar'', JString ''missing''), ([], JString ''missing'')]"
proof -
  have f: "files (initialState 0 inputAndList) componentsListPath = Some (File listText)"
    by (simp add: initialState_def inputAndList_def)
  have e: "components (initialState 0 inputAndList) = []"
    by (simp add: initialState_def)
  have s: "rev (remdups (rev (split CHR 0x0A listText))) = [''Foo'', ''Bar'', []]"
    by (simp add: listText_def)
  from components_list_registered [OF f] e s show ?thesis by simp
qed

theorem compiler_failure_dumps_diagnostics_witness:
  "stderr (script plainChalk failingCompiler 2500 (initialState 0 inputAndList)) =
     [ErrDiagnostic warnDiagnostic, ErrDiagnostic fatalDiagnostic, ErrText ''FatalError: boom'']
   \<and> exitCode (script plainChalk failingCompiler 2500 (initialState 0 inputAndList)) = Some 1"
proof -
  have a: "files (initialState 0 inputAndList) componentsListPath \<noteq> Some Directory"
    by (simp add: initialState_def inputAndList_def)
  have b: "files (initialState 0 inputAndList) inputPath = Some (File ''render()'')"
    by (simp add: initialState_def inputAndList_def paths_distinct)
  have c: "outcome (failingCompiler ''render()'') = Threw (CompilerError None ''FatalError: boom'')"
    by (simp add: failingCompiler_def fatal_def warnDiagnostic_def fatalDiagnostic_def)
  have d: "received (failingCompiler ''render()'') = [warnDiagnostic, fatalDiagnostic]"
    by (simp add: failingCompiler_def fatal_def warnDiagnostic_def fatalDiagnostic_def)
  from compiler_failure_dumps_diagnostics
    [where st = "initialState 0 inputAndList" and source = "''render()''" and compiler = failingCompiler
       and e = "CompilerError None ''FatalError: boom''" and ch = plainChalk and now = 2500
       and st' = "initialState 0 inputAndList", OF a b c] d
  show ?thesis by (simp add: initialState_def)
qed

lemmas eval_walk = afterTree_eq printHeaders_def visitNode_def Let_def console_log_def padStart_def
  trackComponent_def setComponent_def nodeLine_def plainChalk_def lower_examples scenarioTree_def
  scenarioResult_def

theorem summary_lists_every_entry_witness:
  "stdout (snd (printReport plainChalk 2500 scenarioResult trackedState)) =
     [newline # ''=== Compilation Complete ==='' @ [newline],
      ''Evaluated Tree:'',
      ''- Foo (inlined)'',
      ''- Foo (bail-out)'',
      newline # ''=== Status ==='' @ [newline],
      checkMark @ '' Foo'',
      crossMark @ '' Bar'',
      newline # ''=== Summary ==='' @ [newline],
      ''Optimized Components: 1/2'',
      ''Optimized Nodes: 2'',
      ''Inlined Nodes: 1'',
      ''Optimized Trees: 1'',
      ''Compile time: 2s'' @ [newline]]"
proof -
  have c: "completes (evaluatedRootNodes scenarioResult) \<and> components trackedState \<noteq> []"
    by (simp add: scenarioResult_def scenarioTree_def trackedState_def)
  have out: "stdout (afterTree plainChalk scenarioResult trackedState) =
     [newline # ''=== Compilation Complete ==='' @ [newline], ''Evaluated Tree:'',
      ''- Foo (inlined)'', ''- Foo (bail-out)'']"
    by (simp add: eval_walk trackedState_def initialState_def)
  have comps: "components (afterTree plainChalk scenarioResult trackedState) =
     [(''Foo'', JArray [''missing'', ''bail-out'']), (''Bar'', JString ''missing'')]"
    by (simp add: eval_walk trackedState_def initialState_def)
  have uniq: "uniqueEvaluatedComponents (afterTree plainChalk scenarioResult trackedState) = 1"
    by (simp add: eval_walk trackedState_def initialState_def)
  have agg: "aggregateLines plainChalk 2500 scenarioResult trackedState =
     [''Optimized Nodes: 2'', ''Inlined Nodes: 1'', ''Optimized Trees: 1'', ''Compile time: 2s'' @ [newline]]"
    by (simp add: aggregateLines_def scenarioResult_def plainChalk_def trackedState_def
        initialState_def number_examples)
  from summary_lists_every_entry [of scenarioResult trackedState plainChalk 2500] c
  have "stdout (snd (printReport plainChalk 2500 scenarioResult trackedState)) =
         stdout (afterTree plainChalk scenarioResult trackedState)
         @ [newline # inverse plainChalk ''=== Status ==='' @ [newline]]
         @ map (statusLine plainChalk) (components (afterTree plainChalk scenarioResult trackedState))
         @ [newline # inverse plainChalk ''=== Summary ==='' @ [newline],
            gray plainChalk ''Optimized Components'' @ '': ''
              @ natToString (uniqueEvaluatedComponents (afterTree plainChalk scenarioResult trackedState))
              @ ''/'' @ natToString (length (components (afterTree plainChalk scenarioResult trackedState)))]
         @ aggregateLines plainChalk 2500 scenarioResult trackedState"
    by blast
  then show ?thesis
    unfolding out comps uniq agg
    by (simp add: statusLine_def plainChalk_def number_examples)
qed

theorem missing_list_skips_component_report_witness:
  "readComponentsList (initialState 0 inputOnly) = (Returned (), initialState 0 inputOnly)
   \<and> components (script plainChalk okCompiler 2500 (initialState 0 inputOnly)) = []
   \<and> stdout (script plainChalk okCompiler 2500 (initialState 0 inputOnly)) =
     [''note'',
      newline # ''=== Compilation Complete ==='' @ [newline],
      ''Evaluated Tree:'',
      ''- Foo (inlined)'',
      ''- Foo (bail-out)'',
      newline # ''=== Summary ==='' @ [newline],
      ''Optimized Nodes: 2'',
      ''Inlined Nodes: 1'',
      ''Optimized Trees: 1'',
      ''Compile time: 2s'' @ [newline]]"
proof -
  let ?st = "initialState 0 inputOnly"
  have a: "files ?st componentsListPath = None"
    by (simp add: initialState_def inputOnly_def paths_distinct)
  have b: "components ?st = []"
    by (simp add: initialState_def)
  have o: "outcome (okCompiler ''render()'') = Returned \<lparr>reactStatistics = scenarioResult, code = ''out''\<rparr>"
    by (simp add: okCompiler_def fatal_def noteDiagnostic_def)
  have rc: "received (okCompiler ''render()'') = [noteDiagnostic]"
    by (simp add: okCompiler_def fatal_def noteDiagnostic_def)
  define st2 where "st2 = snd (compileFile okCompiler ?st)"
  have cf: "compileFile okCompiler ?st = (Returned scenarioResult, st2)"
    unfolding st2_def
    by (simp add: compileFile_def readFileAsync_def writeFileAsync_def initialState_def inputOnly_def
        paths_distinct compileSource_returned [of okCompiler "''render()''", OF o]
        split: option.splits fsentry.splits)
  have s2: "stdout st2 = [''note'']" "startTime st2 = 0"
    unfolding st2_def
    by (simp_all add: compileFile_def readFileAsync_def writeFileAsync_def initialState_def inputOnly_def
        paths_distinct compileSource_returned [of okCompiler "''render()''", OF o] rc noteDiagnostic_def
        split: option.splits fsentry.splits)
  have c2: "components st2 = []"
    using missing_list_skips_component_report [OF a b, of plainChalk okCompiler 2500] cf by blast
  have out: "stdout (afterTree plainChalk scenarioResult st2) =
     [''note'', newline # ''=== Compilation Complete ==='' @ [newline], ''Evaluated Tree:'',
      ''- Foo (inlined)'', ''- Foo (bail-out)'']"
    by (simp add: eval_walk s2 c2)
  have agg: "aggregateLines plainChalk 2500 scenarioResult st2 =
     [''Optimized Nodes: 2'', ''Inlined Nodes: 1'', ''Optimized Trees: 1'', ''Compile time: 2s'' @ [newline]]"
    by (simp add: aggregateLines_def scenarioResult_def plainChalk_def s2 number_examples)
  have c: "completes (evaluatedRootNodes scenarioResult)"
    by (simp add: scenarioResult_def scenarioTree_def)
  note T = missing_list_skips_component_report [OF a b, of plainChalk okCompiler 2500]
  from T cf have "stdout (script plainChalk okCompiler 2500 ?st) =
              stdout (afterTree plainChalk scenarioResult st2)
              @ (if completes (evaluatedRootNodes scenarioResult)
                 then [newline # inverse plainChalk ''=== Summary ==='' @ [newline]]
                      @ aggregateLines plainChalk 2500 scenarioResult st2
                 else [])"
    by blast
  then have "stdout (script plainChalk okCompiler 2500 ?st) =
     [''note'',
      newline # ''=== Compilation Complete ==='' @ [newline],
      ''Evaluated Tree:'',
      ''- Foo (inlined)'',
      ''- Foo (bail-out)'',
      newline # ''=== Summary ==='' @ [newline],
      ''Optimized Nodes: 2'',
      ''Inlined Nodes: 1'',
      ''Optimized Trees: 1'',
      ''Compile time: 2s'' @ [newline]]"
    unfolding out agg using c by (simp add: plainChalk_def)
  with T show ?thesis by blast
qed

end
